theory Spec2Isabelle
  imports Complex_Main "HOL-Library.Word" "HOL-Library.Multiset"
begin

section \<open>Array primitives used by the script\<close>

text \<open>
  Floating-point array entries are modelled as real numbers (no rounding, no NaN).
  An operation that raises in Python returns \<open>Inl\<close> of the exception.  A float division
  by zero, which NumPy answers with \<open>nan\<close>/\<open>inf\<close> and a RuntimeWarning, has no real value
  and is modelled as \<open>Inl FloatingPointError\<close>.
\<close>

datatype exn = ValueError | IndexError | FloatingPointError | LibraryError string

text \<open>A two-dimensional array: its shape and its buffer in row-major (C) order.\<close>

record 'a ndarray =
  nrows :: nat
  ncols :: nat
  buf :: "'a list"

definition wf_array :: "'a ndarray \<Rightarrow> bool" where
  "wf_array a = (length (buf a) = nrows a * ncols a)"

definition px :: "'a ndarray \<Rightarrow> nat \<Rightarrow> nat \<Rightarrow> 'a" where
  "px a r c = buf a ! (r * ncols a + c)"

text \<open>\<open>a[mask]\<close>: the entries at the True positions, in row-major order.\<close>

fun bool_index :: "'a list \<Rightarrow> bool list \<Rightarrow> 'a list" where
  "bool_index (x # xs) (m # ms) = (if m then x # bool_index xs ms else bool_index xs ms)"
| "bool_index _ _ = []"

text \<open>\<open>a[mask] = vs\<close>: the k-th value goes to the k-th True position; NumPy raises
  ValueError when the number of values is not the number of True positions.\<close>

fun put_mask :: "'a list \<Rightarrow> bool list \<Rightarrow> 'a list \<Rightarrow> 'a list" where
  "put_mask (x # xs) (True # ms) (v # vs) = v # put_mask xs ms vs"
| "put_mask (x # xs) (False # ms) vs = x # put_mask xs ms vs"
| "put_mask xs _ _ = xs"

definition bool_assign :: "'a list \<Rightarrow> bool list \<Rightarrow> 'a list \<Rightarrow> exn + 'a list" where
  "bool_assign xs ms vs =
     (if length vs = length (filter id ms) then Inr (put_mask xs ms vs) else Inl ValueError)"

text \<open>\<open>a.max()\<close> and \<open>a.min()\<close> raise ValueError on an empty array.\<close>

definition np_max :: "real list \<Rightarrow> exn + real" where
  "np_max xs = (if xs = [] then Inl ValueError else Inr (Max (set xs)))"

definition np_min :: "real list \<Rightarrow> exn + real" where
  "np_min xs = (if xs = [] then Inl ValueError else Inr (Min (set xs)))"

definition np_divide :: "real list \<Rightarrow> real \<Rightarrow> exn + real list" where
  "np_divide xs d = (if d = 0 then Inl FloatingPointError else Inr (map (\<lambda>v. v / d) xs))"

section \<open>The brain-area steps of \<open>generate_saliency_map\<close>\<close>

text \<open>Lines 77 to 80: normalise only the brain area.\<close>

definition normalize_brain :: "real list \<Rightarrow> bool list \<Rightarrow> exn + real list" where
  "normalize_brain gradients msk =
     (let brain_gradients = bool_index gradients msk in
      case np_max brain_gradients of Inl e \<Rightarrow> Inl e | Inr hi \<Rightarrow>
      case np_min brain_gradients of Inl e \<Rightarrow> Inl e | Inr lo \<Rightarrow>
      case (if hi > lo
            then np_divide (map (\<lambda>v. v - lo) brain_gradients) (hi - lo)
            else Inr brain_gradients) of Inl e \<Rightarrow> Inl e | Inr brain_gradients' \<Rightarrow>
      bool_assign gradients msk brain_gradients')"


text \<open>\<open>a[cond] = c\<close> with a scalar \<open>c\<close>.\<close>

definition scalar_assign :: "'a list \<Rightarrow> bool list \<Rightarrow> 'a \<Rightarrow> 'a list" where
  "scalar_assign xs ms c = map2 (\<lambda>x m. if m then c else x) xs ms"

definition amap :: "('a \<Rightarrow> 'b) \<Rightarrow> 'a ndarray \<Rightarrow> 'b ndarray" where
  "amap f a = \<lparr>nrows = nrows a, ncols = ncols a, buf = map f (buf a)\<rparr>"

text \<open>Pixels with three channels (the last axis of an image array).\<close>

type_synonym 'a pixel = "'a \<times> 'a \<times> 'a"
type_synonym uint8 = "8 word"

definition map3 :: "('a \<Rightarrow> 'b) \<Rightarrow> 'a pixel \<Rightarrow> 'b pixel" where
  "map3 f p = (case p of (a, b, c) \<Rightarrow> (f a, f b, f c))"

definition zip3 :: "('a \<Rightarrow> 'b \<Rightarrow> 'c) \<Rightarrow> 'a pixel \<Rightarrow> 'b pixel \<Rightarrow> 'c pixel" where
  "zip3 f p q = (case p of (a, b, c) \<Rightarrow> case q of (x, y, z) \<Rightarrow> (f a x, f b y, f c z))"

text \<open>\<open>tf.reduce_max(..., axis=-1)\<close> on one pixel.\<close>

definition chan_max :: "real pixel \<Rightarrow> real" where
  "chan_max p = (case p of (a, b, c) \<Rightarrow> max (max a b) c)"

text \<open>\<open>cv2.COLOR_BGR2RGB\<close> on one pixel.\<close>

definition bgr2rgb :: "'a pixel \<Rightarrow> 'a pixel" where
  "bgr2rgb p = (case p of (b, g, r) \<Rightarrow> (r, g, b))"

text \<open>NumPy broadcasting of a binary operation over the two spatial axes: two lengths
  are compatible when they are equal or one of them is 1; otherwise ValueError.
  Entry \<open>(r, c)\<close> of the result lies at position \<open>r * w + c\<close> of its buffer.\<close>

definition bdim :: "nat \<Rightarrow> nat \<Rightarrow> exn + nat" where
  "bdim m n = (if m = n then Inr m else if m = 1 then Inr n else if n = 1 then Inr m
               else Inl ValueError)"

definition bsel :: "nat \<Rightarrow> nat \<Rightarrow> nat" where
  "bsel n i = (if n = 1 then 0 else i)"

definition broadcast2 :: "('a \<Rightarrow> 'b \<Rightarrow> 'c) \<Rightarrow> 'a ndarray \<Rightarrow> 'b ndarray \<Rightarrow> exn + 'c ndarray" where
  "broadcast2 f a b =
     (case bdim (nrows a) (nrows b) of Inl e \<Rightarrow> Inl e | Inr h \<Rightarrow>
      case bdim (ncols a) (ncols b) of Inl e \<Rightarrow> Inl e | Inr w \<Rightarrow>
      Inr \<lparr>nrows = h, ncols = w,
           buf = map (\<lambda>i. f (px a (bsel (nrows a) (i div w)) (bsel (ncols a) (i mod w)))
                            (px b (bsel (nrows b) (i div w)) (bsel (ncols b) (i mod w))))
                     [0..<h * w]\<rparr>)"

definition bind :: "exn + 'a \<Rightarrow> ('a \<Rightarrow> exn + 'b) \<Rightarrow> exn + 'b" where
  "bind r f = (case r of Inl e \<Rightarrow> Inl e | Inr v \<Rightarrow> f v)"

section \<open>Library operations and the classifier\<close>

text \<open>
  The OpenCV and NumPy routines whose results depend on interpolation, kernels or
  tables are parameters of the model.  \<open>colormap_jet\<close> is the 256-entry JET table in OpenCV's
  BGR order; \<open>np_uint8\<close> is the cast of a float to an unsigned byte.
\<close>

record lib =
  cv_resize :: "real ndarray \<Rightarrow> nat \<times> nat \<Rightarrow> real ndarray"
  np_percentile :: "real list \<Rightarrow> real \<Rightarrow> real"
  cv_GaussianBlur :: "real ndarray \<Rightarrow> nat \<times> nat \<Rightarrow> real \<Rightarrow> real ndarray"
  np_uint8 :: "real \<Rightarrow> uint8"
  colormap_jet :: "uint8 \<Rightarrow> uint8 pixel"
  cv_resize_rgb :: "uint8 pixel ndarray \<Rightarrow> nat \<times> nat \<Rightarrow> uint8 pixel ndarray"
  np_argsort :: "real list \<Rightarrow> nat list"

text \<open>
  A loaded classifier.  \<open>img_array\<close> and \<open>prediction\<close> carry a leading batch axis of
  length 1 (line 155), which the model leaves out: \<open>predict\<close> gives \<open>prediction[0]\<close>, and
  \<open>class_gradient m img k\<close> is the gradient of \<open>predictions[:, k]\<close> with respect to the input
  (lines 53 to 59), squeezed.
\<close>

record model =
  predict :: "real pixel ndarray \<Rightarrow> exn + real list"
  class_gradient :: "real pixel ndarray \<Rightarrow> nat \<Rightarrow> exn + real pixel ndarray"

section \<open>\<open>generate_saliency_map\<close>\<close>

text \<open>Lines 68 to 71: the circular mask, as the buffer of a \<open>shape0\<close> by \<open>shape1\<close> array.
  \<open>x\<close> is the column index, \<open>y\<close> the row index.\<close>

definition in_disc :: "nat \<times> nat \<Rightarrow> int \<Rightarrow> nat \<Rightarrow> nat \<Rightarrow> bool" where
  "in_disc center radius y x =
     ((int x - int (fst center))\<^sup>2 + (int y - int (snd center))\<^sup>2 \<le> radius\<^sup>2)"

definition circular_mask :: "nat \<Rightarrow> nat \<Rightarrow> bool list" where
  "circular_mask shape0 shape1 =
     (let center = (shape0 div 2, shape1 div 2);
          radius = int (min (fst center) (snd center)) - 10
      in map (\<lambda>i. in_disc center radius (i div shape1) (i mod shape1)) [0..<shape0 * shape1])"

text \<open>Line 74: \<open>gradients * mask\<close>, True counting as 1 and False as 0.\<close>

definition apply_mask :: "real ndarray \<Rightarrow> bool list \<Rightarrow> real ndarray" where
  "apply_mask gradients msk = gradients\<lparr>buf := map2 (\<lambda>g m. g * of_bool m) (buf gradients) msk\<rparr>"

text \<open>Lines 83 and 84: zero everything below the 80th percentile of the brain area.\<close>

definition apply_threshold :: "lib \<Rightarrow> real ndarray \<Rightarrow> bool list \<Rightarrow> real ndarray" where
  "apply_threshold L gradients msk =
     (let threshold = np_percentile L (bool_index (buf gradients) msk) 80
      in gradients\<lparr>buf := scalar_assign (buf gradients)
                              (map (\<lambda>v. v < threshold) (buf gradients)) 0\<rparr>)"

text \<open>Lines 52 to 101.\<close>

definition generate_saliency_map ::
  "lib \<Rightarrow> model \<Rightarrow> real pixel ndarray \<Rightarrow> nat \<Rightarrow> nat \<times> nat \<Rightarrow> exn + uint8 pixel ndarray" where
  "generate_saliency_map L m img_array class_index img_size =
     bind (class_gradient m img_array class_index) (\<lambda>gradients.
     let gradients = amap (map3 abs) gradients;
         gradients = amap chan_max gradients;
         gradients = cv_resize L gradients img_size;
         msk = circular_mask (nrows gradients) (ncols gradients);
         gradients = apply_mask gradients msk
     in bind (normalize_brain (buf gradients) msk) (\<lambda>normalized.
        let gradients = gradients\<lparr>buf := normalized\<rparr>;
            gradients = apply_threshold L gradients msk;
            gradients = cv_GaussianBlur L gradients (11, 11) 0;
            heatmap = amap (colormap_jet L) (amap (\<lambda>v. np_uint8 L (255 * v)) gradients);
            heatmap = amap bgr2rgb heatmap;
            heatmap = cv_resize_rgb L heatmap img_size;
            original_img = amap (map3 (\<lambda>v. v * 255)) img_array
        in bind (broadcast2 (zip3 (\<lambda>h p. real (unat h) * 0.7 + p * 0.3)) heatmap original_img)
             (\<lambda>superimposed_img. Inr (amap (map3 (np_uint8 L)) superimposed_img))))"

section \<open>The script\<close>

text \<open>Line 160: \<open>np.argmax\<close> gives the first position of the maximum and raises ValueError
  on an empty vector.\<close>

fun first_index :: "'a \<Rightarrow> 'a list \<Rightarrow> nat" where
  "first_index v [] = 0"
| "first_index v (x # xs) = (if x = v then 0 else Suc (first_index v xs))"

definition np_argmax :: "real list \<Rightarrow> exn + nat" where
  "np_argmax xs = (if xs = [] then Inl ValueError else Inr (first_index (Max (set xs)) xs))"

text \<open>\<open>xs[i]\<close>, and \<open>[xs[i] for i in idx]\<close> (also \<open>xs[idx]\<close> on an array): IndexError out of range.\<close>

definition index :: "'a list \<Rightarrow> nat \<Rightarrow> exn + 'a" where
  "index xs i = (if i < length xs then Inr (xs ! i) else Inl IndexError)"

fun index_all :: "'a list \<Rightarrow> nat list \<Rightarrow> exn + 'a list" where
  "index_all xs [] = Inr []"
| "index_all xs (i # idx) =
     bind (index xs i) (\<lambda>v. bind (index_all xs idx) (\<lambda>vs. Inr (v # vs)))"

definition labels :: "string list" where
  "labels = [''Glioma'', ''Meningioma'', ''No tumor'', ''Pituitary'']"

text \<open>Lines 206 to 237: the bar chart (bars, their labels and colours, and one value
  annotation per bar); the fixed layout titles are left out.\<close>

record figure =
  bar_x :: "real list"
  bar_y :: "string list"
  marker_color :: "string list"
  annotations :: "(real \<times> nat) list"

definition chart :: "lib \<Rightarrow> real list \<Rightarrow> string \<Rightarrow> exn + figure" where
  "chart L probabilities result =
     (let sorted_indices = rev (np_argsort L probabilities)
      in bind (index_all labels sorted_indices) (\<lambda>sorted_labels.
         bind (index_all probabilities sorted_indices) (\<lambda>sorted_probabilities.
         Inr \<lparr>bar_x = sorted_probabilities, bar_y = sorted_labels,
              marker_color = map (\<lambda>label. if label = result then ''red'' else ''blue'')
                                 sorted_labels,
              annotations = zip sorted_probabilities [0..<length sorted_probabilities]\<rparr>)))"

text \<open>
  What the outside world answers during one run of the script: the upload widget and the
  radio button, Keras (building the ImageNet base, loading a weight file, loading a saved
  model), the image decoder and the generative-AI service.  Each of them may raise.
\<close>

record env =
  uploaded_file :: "string option"
  selected_model :: string
  keras_Xception :: "exn + unit"
  load_weights :: "string \<Rightarrow> exn + model"
  load_model :: "string \<Rightarrow> exn + model"
  load_img :: "string \<Rightarrow> nat \<times> nat \<Rightarrow> exn + uint8 pixel ndarray"
  generate_content :: "string \<Rightarrow> real \<Rightarrow> uint8 pixel ndarray \<Rightarrow> exn + string"

text \<open>
  A run of the script is the list of the calls it made, each with the exception it raised
  if any, and the outcome: \<open>Inl\<close> of the exception that left the script, or \<open>Inr\<close> of a value.
  Formatted text is recorded by its parameters.
\<close>

datatype call =
    GenaiConfigure
  | StTitle string
  | StWrite string
  | StFileUploader string "string list"
  | StRadio string "string list"
  | KerasXception
  | LoadWeights string
  | LoadModel string
  | LoadImg string "nat \<times> nat"
  | ModelPredict
  | NpArgmax
  | LabelsIndex nat
  | WritePredicted string
  | WriteProb string real
  | GenerateSaliencyMap nat "nat \<times> nat"
  | StColumns nat
  | StImage string
  | ResultCard string real
  | BuildChart
  | StPlotlyChart figure
  | GenerateContent string real

type_synonym 'a run = "(call \<times> exn option) list \<times> (exn + 'a)"

definition ret :: "'a \<Rightarrow> 'a run" where
  "ret v = ([], Inr v)"

definition emit :: "call \<Rightarrow> unit run" where
  "emit c = ([(c, None)], Inr ())"

definition invoke :: "call \<Rightarrow> exn + 'a \<Rightarrow> 'a run" where
  "invoke c r = (case r of Inl e \<Rightarrow> ([(c, Some e)], Inl e) | Inr v \<Rightarrow> ([(c, None)], Inr v))"

definition seq :: "'a run \<Rightarrow> ('a \<Rightarrow> 'b run) \<Rightarrow> 'b run" where
  "seq m f = (case m of (t, Inl e) \<Rightarrow> (t, Inl e)
              | (t, Inr v) \<Rightarrow> (case f v of (t', r) \<Rightarrow> (t @ t', r)))"

fun emit_all :: "call list \<Rightarrow> unit run" where
  "emit_all [] = ret ()"
| "emit_all (c # cs) = seq (emit c) (\<lambda>_. emit_all cs)"

text \<open>Lines 106 to 128.\<close>

definition load_xception_model :: "env \<Rightarrow> model run" where
  "load_xception_model E =
     seq (invoke KerasXception (keras_Xception E)) (\<lambda>_.
     invoke (LoadWeights ''xception_model.weights.h5'')
            (load_weights E ''xception_model.weights.h5''))"

text \<open>Lines 139 to 149.\<close>

definition select_model :: "env \<Rightarrow> (model \<times> nat \<times> nat) run" where
  "select_model E =
     seq (emit (StRadio ''Select Model'' [''Transfer Learning - Xception'', ''Custom_CNN''])) (\<lambda>_.
     if selected_model E = ''Transfer Learning - Xception''
     then seq (load_xception_model E) (\<lambda>model. ret (model, (299, 299)))
     else seq (invoke (LoadModel ''cnn_model.h5'') (load_model E ''cnn_model.h5''))
              (\<lambda>model. ret (model, (224, 224))))"

text \<open>Lines 153 to 158.\<close>

definition preprocess_and_predict ::
  "env \<Rightarrow> string \<Rightarrow> model \<Rightarrow> nat \<times> nat \<Rightarrow> (real pixel ndarray \<times> real list) run" where
  "preprocess_and_predict E file model img_size =
     seq (invoke (LoadImg file img_size) (load_img E file img_size)) (\<lambda>img.
     let img_array = amap (map3 (\<lambda>v. real (unat v))) img;
         img_array = amap (map3 (\<lambda>v. v / 255)) img_array
     in seq (invoke ModelPredict (predict model img_array)) (\<lambda>prediction.
        ret (img_array, prediction)))"

text \<open>Lines 160 to 248.\<close>

definition report ::
  "lib \<Rightarrow> env \<Rightarrow> model \<Rightarrow> nat \<times> nat \<Rightarrow> real pixel ndarray \<Rightarrow> real list \<Rightarrow> unit run" where
  "report L E model img_size img_array prediction =
     seq (invoke NpArgmax (np_argmax prediction)) (\<lambda>class_index.
     seq (invoke (LabelsIndex class_index) (index labels class_index)) (\<lambda>result.
     seq (emit (WritePredicted result)) (\<lambda>_.
     seq (emit (StWrite ''Predictions:'')) (\<lambda>_.
     seq (emit_all (map (\<lambda>(label, prob). WriteProb label prob) (zip labels prediction))) (\<lambda>_.
     seq (invoke (GenerateSaliencyMap class_index img_size)
                 (generate_saliency_map L model img_array class_index img_size)) (\<lambda>saliency_map.
     seq (emit (StColumns 2)) (\<lambda>_.
     seq (emit (StImage ''Uploaded MRI'')) (\<lambda>_.
     seq (emit (StImage ''Saliency Map'')) (\<lambda>_.
     seq (emit (StWrite ''## Classification Results'')) (\<lambda>_.
     seq (emit (ResultCard result (prediction ! class_index))) (\<lambda>_.
     seq (invoke BuildChart (chart L prediction result)) (\<lambda>fig.
     seq (emit (StPlotlyChart fig)) (\<lambda>_.
     seq (invoke (GenerateContent result (prediction ! class_index))
                 (generate_content E result (prediction ! class_index) saliency_map)) (\<lambda>explanation.
     seq (emit (StWrite ''## Explanation'')) (\<lambda>_.
     emit (StWrite explanation))))))))))))))))"

text \<open>Lines 21 and 132 to 248.\<close>

definition script :: "lib \<Rightarrow> env \<Rightarrow> unit run" where
  "script L E =
     seq (emit GenaiConfigure) (\<lambda>_.
     seq (emit (StTitle ''Brain Tumor Classification'')) (\<lambda>_.
     seq (emit (StWrite ''Upload an image of a brain MRI scan to classify.'')) (\<lambda>_.
     seq (emit (StFileUploader ''Choose an image...'' [''jpg'', ''jpeg'', ''png''])) (\<lambda>_.
     case uploaded_file E of
       None \<Rightarrow> ret ()
     | Some file \<Rightarrow>
         seq (select_model E) (\<lambda>(model, img_size).
         seq (preprocess_and_predict E file model img_size) (\<lambda>(img_array, prediction).
         report L E model img_size img_array prediction))))))"

section \<open>Notions used to state the properties\<close>

text \<open>Every entry outside the disc of lines 68 to 71 is zero.\<close>

definition outside_zero :: "real ndarray \<Rightarrow> bool" where
  "outside_zero g =
     (let center = (nrows g div 2, ncols g div 2);
          radius = int (min (fst center) (snd center)) - 10
      in \<forall>y < nrows g. \<forall>x < ncols g. \<not> in_disc center radius y x \<longrightarrow> px g y x = 0)"

text \<open>Line 79 without the test of line 78.\<close>

definition normalize_unguarded :: "real list \<Rightarrow> bool list \<Rightarrow> exn + real list" where
  "normalize_unguarded gradients msk =
     (let brain_gradients = bool_index gradients msk in
      bind (np_max brain_gradients) (\<lambda>hi.
      bind (np_min brain_gradients) (\<lambda>lo.
      bind (np_divide (map (\<lambda>v. v - lo) brain_gradients) (hi - lo)) (\<lambda>brain_gradients'.
      bool_assign gradients msk brain_gradients'))))"

text \<open>
  What the documentation of OpenCV promises about shapes: \<open>cv2.resize\<close> with
  \<open>dsize = (w, h)\<close> gives an array of \<open>h\<close> rows and \<open>w\<close> columns, and \<open>cv2.GaussianBlur\<close> keeps
  the shape of its input.
\<close>

definition shape_contract :: "lib \<Rightarrow> bool" where
  "shape_contract L =
     ((\<forall>a w h. 0 < w \<and> 0 < h \<longrightarrow>
         nrows (cv_resize L a (w, h)) = h \<and> ncols (cv_resize L a (w, h)) = w
         \<and> wf_array (cv_resize L a (w, h))) \<and>
      (\<forall>a w h. 0 < w \<and> 0 < h \<longrightarrow>
         nrows (cv_resize_rgb L a (w, h)) = h \<and> ncols (cv_resize_rgb L a (w, h)) = w) \<and>
      (\<forall>a k sigma. nrows (cv_GaussianBlur L a k sigma) = nrows a
         \<and> ncols (cv_GaussianBlur L a k sigma) = ncols a))"


text \<open>
  A simple instance of the library parameters: nearest-neighbour resizing, the percentile
  by linear interpolation, no smoothing, truncation to a byte, a grey colour table and a
  stable argsort.  It shows that the contracts above can be met and serves to run the model
  on concrete inputs.
\<close>

definition nearest_resize :: "'a ndarray \<Rightarrow> nat \<times> nat \<Rightarrow> 'a ndarray" where
  "nearest_resize a dsize =
     (case dsize of (w, h) \<Rightarrow>
        \<lparr>nrows = h, ncols = w,
         buf = map (\<lambda>i. px a ((i div w) * nrows a div h) ((i mod w) * ncols a div w))
                   [0..<h * w]\<rparr>)"

definition linear_percentile :: "real list \<Rightarrow> real \<Rightarrow> real" where
  "linear_percentile xs q =
     (let s = sort xs;
          pos = q / 100 * real (length s - 1);
          lo = nat \<lfloor>pos\<rfloor>;
          hi = min (lo + 1) (length s - 1)
      in s ! lo + (pos - real lo) * (s ! hi - s ! lo))"


definition simple_lib :: lib where
  "simple_lib =
     \<lparr>cv_resize = nearest_resize,
      np_percentile = linear_percentile,
      cv_GaussianBlur = (\<lambda>a k sigma. a),
      np_uint8 = (\<lambda>v. word_of_int \<lfloor>v\<rfloor>),
      colormap_jet = (\<lambda>v. (v, v, v)),
      cv_resize_rgb = nearest_resize,
      np_argsort = (\<lambda>xs. sort_key (\<lambda>i. xs ! i) [0..<length xs])\<rparr>"

subsection \<open>The saliency computation as the specification words it\<close>

text \<open>
  The steps in the order the specification lists them, each as a function on arrays given
  entry by entry: gradient magnitude, resizing, circular mask, min-max normalisation of the
  masked region, percentile threshold, Gaussian blur, colour map, blending.
\<close>

definition tabulate :: "nat \<Rightarrow> nat \<Rightarrow> (nat \<Rightarrow> nat \<Rightarrow> 'a) \<Rightarrow> 'a ndarray" where
  "tabulate h w f = \<lparr>nrows = h, ncols = w, buf = map (\<lambda>i. f (i div w) (i mod w)) [0..<h * w]\<rparr>"












subsection \<open>Runs of the script\<close>

text \<open>A call that raised is the last call of the run and its exception is the outcome,
  and an exception is the outcome only when the last call raised it.\<close>

definition fail_last :: "'a run \<Rightarrow> bool" where
  "fail_last m =
     ((\<forall>i < length (fst m). \<forall>e. snd (fst m ! i) = Some e \<longrightarrow>
         Suc i = length (fst m) \<and> snd m = Inl e) \<and>
      (\<forall>e. snd m = Inl e \<longrightarrow> fst m \<noteq> [] \<and> snd (last (fst m)) = Some e))"

definition calls :: "'a run \<Rightarrow> call list" where
  "calls m = map fst (fst m)"

section \<open>Facts about the array primitives\<close>

lemma length_bool_index:
  "length xs = length ms \<Longrightarrow> length (bool_index xs ms) = length (filter id ms)"
  by (induction xs ms rule: bool_index.induct) auto

lemma length_put_mask: "length (put_mask xs ms vs) = length xs"
  by (induction xs ms vs rule: put_mask.induct) auto

lemma bool_index_put_mask:
  "length xs = length ms \<Longrightarrow> length vs = length (filter id ms) \<Longrightarrow>
   bool_index (put_mask xs ms vs) ms = vs"
  by (induction xs ms vs rule: put_mask.induct) auto

lemma put_mask_bool_index: "put_mask xs ms (bool_index xs ms) = xs"
  by (induction xs ms rule: bool_index.induct) auto

section \<open>Normalisation of the brain area\<close>

lemma normalize_no_fpe: "normalize_brain gradients msk \<noteq> Inl FloatingPointError"
  by (auto simp: normalize_brain_def Let_def np_max_def np_min_def np_divide_def bool_assign_def
      split: sum.splits if_splits)

lemma minmax_unit:
  fixes bg :: "real list"
  assumes "v \<in> set bg" "Min (set bg) < Max (set bg)"
  shows "0 \<le> (v - Min (set bg)) / (Max (set bg) - Min (set bg))
       \<and> (v - Min (set bg)) / (Max (set bg) - Min (set bg)) \<le> 1"
proof -
  have "Min (set bg) \<le> v" "v \<le> Max (set bg)" using assms(1) by simp_all
  then show ?thesis using assms(2) by (simp add: divide_le_eq)
qed

text \<open>
  Claim C8.  The division of line 79 is reached only when the maximum of the brain-area
  values strictly exceeds their minimum, so \<open>normalize_brain\<close> never divides by zero.  When
  the brain area is not empty and the maximum exceeds the minimum, the function returns, the
  brain-area values of the result are the min-max scaled ones, and all of them lie in
  \<open>[0, 1]\<close>; when the maximum does not exceed the minimum the array is returned unchanged.
\<close>

theorem normalize_brain_guarded:
  assumes "length gradients = length msk"
  shows "normalize_brain gradients msk \<noteq> Inl FloatingPointError \<and>
   (let bg = bool_index gradients msk in
    bg \<noteq> [] \<longrightarrow>
     (if Min (set bg) < Max (set bg)
      then \<exists>g'. normalize_brain gradients msk = Inr g'
            \<and> bool_index g' msk = map (\<lambda>v. (v - Min (set bg)) / (Max (set bg) - Min (set bg))) bg
            \<and> (\<forall>v \<in> set (bool_index g' msk). 0 \<le> v \<and> v \<le> 1)
      else normalize_brain gradients msk = Inr gradients))"
proof -
  let ?bg = "bool_index gradients msk"
  have len: "length ?bg = length (filter id msk)"
    using assms by (rule length_bool_index)
  have A: "normalize_brain gradients msk = Inr gradients"
    if "?bg \<noteq> []" "\<not> Min (set ?bg) < Max (set ?bg)"
    using that len
    by (simp add: normalize_brain_def Let_def np_max_def np_min_def bool_assign_def put_mask_bool_index)
  have B: "\<exists>g'. normalize_brain gradients msk = Inr g'
            \<and> bool_index g' msk = map (\<lambda>v. (v - Min (set ?bg)) / (Max (set ?bg) - Min (set ?bg))) ?bg
            \<and> (\<forall>v \<in> set (bool_index g' msk). 0 \<le> v \<and> v \<le> 1)"
    if ne: "?bg \<noteq> []" and lt: "Min (set ?bg) < Max (set ?bg)"
  proof -
    let ?vs = "map (\<lambda>v. (v - Min (set ?bg)) / (Max (set ?bg) - Min (set ?bg))) ?bg"
    have run: "normalize_brain gradients msk = Inr (put_mask gradients msk ?vs)"
      using ne lt len
      by (simp add: normalize_brain_def Let_def np_max_def np_min_def np_divide_def bool_assign_def o_def)
    have rt: "bool_index (put_mask gradients msk ?vs) msk = ?vs"
      using assms len by (simp add: bool_index_put_mask)
    have "\<forall>v \<in> set ?vs. 0 \<le> v \<and> v \<le> 1"
      using minmax_unit [OF _ lt] by auto
    with run rt show ?thesis by simp
  qed
  show ?thesis using normalize_no_fpe A B by (simp add: Let_def)
qed

theorem normalize_brain_guarded_witness:
  "length [0, 2, 4, 1 :: real] = length [False, True, True, True] \<and>
   normalize_brain [0, 2, 4, 1] [False, True, True, True] \<noteq> Inl FloatingPointError \<and>
   (\<exists>g'. normalize_brain [0, 2, 4, 1] [False, True, True, True] = Inr g'
        \<and> bool_index g' [False, True, True, True] = [1/3, 1, 0]
        \<and> (\<forall>v \<in> set (bool_index g' [False, True, True, True]). 0 \<le> v \<and> v \<le> 1))"
  using normalize_brain_guarded [of "[0, 2, 4, 1]" "[False, True, True, True]"]
  by (simp add: Let_def)

section \<open>The circular mask\<close>

lemma length_circular_mask: "length (circular_mask h w) = h * w"
  by (simp add: circular_mask_def Let_def)

lemma flat_index_less: "y < h \<Longrightarrow> x < w \<Longrightarrow> y * w + x < h * (w::nat)"
proof -
  assume a: "y < h" "x < w"
  then have "y * w + x < y * w + w" by simp
  also have "\<dots> = Suc y * w" by simp
  also have "\<dots> \<le> h * w" using a(1) by (intro mult_le_mono1) simp
  finally show ?thesis .
qed

lemma circular_mask_nth:
  "y < h \<Longrightarrow> x < w \<Longrightarrow>
   circular_mask h w ! (y * w + x) =
     in_disc (h div 2, w div 2) (int (min (h div 2) (w div 2)) - 10) y x"
  using flat_index_less [of y h x w]
  by (simp add: circular_mask_def Let_def)

lemma put_mask_outside:
  "i < length xs \<Longrightarrow> i < length ms \<Longrightarrow> \<not> ms ! i \<Longrightarrow> put_mask xs ms vs ! i = xs ! i"
proof (induction xs ms vs arbitrary: i rule: put_mask.induct)
  case (1 x xs ms v vs)
  then show ?case by (cases i) auto
next
  case (2 x xs ms vs)
  then show ?case by (cases i) auto
qed auto

lemma scalar_assign_nth:
  "i < length xs \<Longrightarrow>
   scalar_assign xs (map P xs) c ! i = (if P (xs ! i) then c else xs ! i)"
  by (simp add: scalar_assign_def)

lemma bool_index_nonempty:
  "i < length xs \<Longrightarrow> i < length ms \<Longrightarrow> ms ! i \<Longrightarrow> bool_index xs ms \<noteq> []"
proof (induction xs ms arbitrary: i rule: bool_index.induct)
  case (1 x xs m ms)
  then show ?case by (cases i) auto
qed auto

lemma outside_zero_buf:
  "outside_zero g \<longleftrightarrow>
     (\<forall>i < nrows g * ncols g. \<not> circular_mask (nrows g) (ncols g) ! i \<longrightarrow> buf g ! i = 0)"
proof
  assume oz: "outside_zero g"
  show "\<forall>i < nrows g * ncols g. \<not> circular_mask (nrows g) (ncols g) ! i \<longrightarrow> buf g ! i = 0"
  proof (intro allI impI)
    fix i assume i: "i < nrows g * ncols g" and out: "\<not> circular_mask (nrows g) (ncols g) ! i"
    have w: "0 < ncols g" using i by (cases "ncols g") auto
    have y: "i div ncols g < nrows g" using i by (simp add: less_mult_imp_div_less)
    have x: "i mod ncols g < ncols g" using w by simp
    have "\<not> in_disc (nrows g div 2, ncols g div 2)
              (int (min (nrows g div 2) (ncols g div 2)) - 10) (i div ncols g) (i mod ncols g)"
      using out circular_mask_nth [OF y x] by simp
    then have "px g (i div ncols g) (i mod ncols g) = 0"
      using oz y x by (simp add: outside_zero_def Let_def)
    then show "buf g ! i = 0" by (simp add: px_def)
  qed
next
  assume b: "\<forall>i < nrows g * ncols g. \<not> circular_mask (nrows g) (ncols g) ! i \<longrightarrow> buf g ! i = 0"
  show "outside_zero g"
    unfolding outside_zero_def Let_def
  proof (intro allI impI)
    fix y x
    assume y: "y < nrows g" and x: "x < ncols g"
      and out: "\<not> in_disc (nrows g div 2, ncols g div 2)
          (int (min (fst (nrows g div 2, ncols g div 2)) (snd (nrows g div 2, ncols g div 2))) - 10) y x"
    have "\<not> circular_mask (nrows g) (ncols g) ! (y * ncols g + x)"
      using out by (simp add: circular_mask_nth [OF y x])
    then show "px g y x = 0"
      using b flat_index_less [OF y x] by (simp add: px_def)
  qed
qed

lemma outside_zero_apply_mask:
  assumes "wf_array g"
  shows "outside_zero (apply_mask g (circular_mask (nrows g) (ncols g)))"
  using assms
  by (simp add: outside_zero_buf apply_mask_def wf_array_def length_circular_mask)

lemma outside_zero_write_back:
  assumes "wf_array g" "outside_zero g"
    and "normalize_brain (buf g) (circular_mask (nrows g) (ncols g)) = Inr b"
  shows "outside_zero (g\<lparr>buf := b\<rparr>)"
proof -
  obtain vs where b: "b = put_mask (buf g) (circular_mask (nrows g) (ncols g)) vs"
    using assms(3)
    by (auto simp: normalize_brain_def Let_def bool_assign_def np_max_def np_min_def np_divide_def
        split: sum.splits if_splits)
  show ?thesis
    using assms(1,2)
    by (simp add: outside_zero_buf b wf_array_def put_mask_outside length_circular_mask)
qed

lemma apply_threshold_nth:
  "i < length (buf g) \<Longrightarrow>
   buf (apply_threshold L g msk) ! i = buf g ! i \<or> buf (apply_threshold L g msk) ! i = 0"
  by (simp add: apply_threshold_def Let_def scalar_assign_nth)

lemma outside_zero_threshold:
  assumes "wf_array g" "outside_zero g"
  shows "outside_zero (apply_threshold L g msk)"
proof -
  have "buf (apply_threshold L g msk) ! i = 0" if "i < length (buf g)" "buf g ! i = 0" for i
    using apply_threshold_nth [OF that(1), of L msk] that(2) by auto
  moreover have "nrows (apply_threshold L g msk) = nrows g" "ncols (apply_threshold L g msk) = ncols g"
    by (simp_all add: apply_threshold_def Let_def)
  ultimately show ?thesis
    using assms by (simp add: outside_zero_buf wf_array_def)
qed

lemma normalize_returns_square:
  assumes "wf_array g" "nrows g = ncols g" "0 < nrows g"
  shows "\<exists>b. normalize_brain (buf g) (circular_mask (nrows g) (ncols g)) = Inr b \<and> length b = length (buf g)"
proof -
  let ?s = "nrows g"
  let ?m = "circular_mask (nrows g) (ncols g)"
  have c: "?s div 2 < ?s" using assms(3) by simp
  have idx: "?s div 2 * ?s + ?s div 2 < ?s * ?s" using c c by (rule flat_index_less)
  have "?m ! (?s div 2 * ?s + ?s div 2)"
    using circular_mask_nth [OF c c] assms(2) by (simp add: in_disc_def)
  then have ne: "bool_index (buf g) ?m \<noteq> []"
    using idx assms(1,2) bool_index_nonempty [of "?s div 2 * ?s + ?s div 2" "buf g" ?m]
    by (simp add: wf_array_def length_circular_mask)
  have len: "length (bool_index (buf g) ?m) = length (filter id ?m)"
    using assms(1) by (intro length_bool_index) (simp add: wf_array_def length_circular_mask)
  show ?thesis
    using ne len
    by (simp add: normalize_brain_def Let_def np_max_def np_min_def np_divide_def bool_assign_def
        length_put_mask)
qed

text \<open>
  Claim C10.  For a well-formed gradient array, after the multiplication by the circular
  mask (line 74) every entry outside the disc is zero; this still holds after the
  normalised brain-area values are written back (line 80) and after the percentile
  threshold (line 84), which leaves every entry as it was or sets it to zero.  For a square,
  non-empty array the normalisation returns, so the later steps are reached.
\<close>

theorem circular_mask_zero_outside:
  assumes "wf_array g"
  shows "let msk = circular_mask (nrows g) (ncols g); masked = apply_mask g msk in
     outside_zero masked \<and>
     (\<forall>b. normalize_brain (buf masked) msk = Inr b \<longrightarrow>
        outside_zero (masked\<lparr>buf := b\<rparr>) \<and>
        outside_zero (apply_threshold L (masked\<lparr>buf := b\<rparr>) msk) \<and>
        (\<forall>i < length b. buf (apply_threshold L (masked\<lparr>buf := b\<rparr>) msk) ! i = b ! i
                       \<or> buf (apply_threshold L (masked\<lparr>buf := b\<rparr>) msk) ! i = 0)) \<and>
     (nrows g = ncols g \<and> 0 < nrows g \<longrightarrow> (\<exists>b. normalize_brain (buf masked) msk = Inr b))"
proof -
  let ?m = "circular_mask (nrows g) (ncols g)"
  let ?g1 = "apply_mask g ?m"
  have wf1: "wf_array ?g1" and sh: "nrows ?g1 = nrows g" "ncols ?g1 = ncols g"
    using assms by (simp_all add: wf_array_def apply_mask_def length_circular_mask)
  have oz1: "outside_zero ?g1" using assms by (rule outside_zero_apply_mask)
  have step: "outside_zero (?g1\<lparr>buf := b\<rparr>) \<and> outside_zero (apply_threshold L (?g1\<lparr>buf := b\<rparr>) ?m)
      \<and> (\<forall>i < length b. buf (apply_threshold L (?g1\<lparr>buf := b\<rparr>) ?m) ! i = b ! i
                       \<or> buf (apply_threshold L (?g1\<lparr>buf := b\<rparr>) ?m) ! i = 0)"
    if nb: "normalize_brain (buf ?g1) ?m = Inr b" for b
  proof -
    have oz2: "outside_zero (?g1\<lparr>buf := b\<rparr>)"
      using outside_zero_write_back [OF wf1 oz1] nb sh by simp
    have "length b = length (buf ?g1)"
      using nb by (auto simp: normalize_brain_def Let_def bool_assign_def np_max_def np_min_def
          np_divide_def length_put_mask split: sum.splits if_splits)
    then have wf2: "wf_array (?g1\<lparr>buf := b\<rparr>)" using wf1 by (simp add: wf_array_def)
    have oz3: "outside_zero (apply_threshold L (?g1\<lparr>buf := b\<rparr>) ?m)"
      using wf2 oz2 by (rule outside_zero_threshold)
    show ?thesis using oz2 oz3 apply_threshold_nth [of _ "?g1\<lparr>buf := b\<rparr>" L ?m] by simp
  qed
  have ret: "\<exists>b. normalize_brain (buf ?g1) ?m = Inr b" if "nrows g = ncols g" "0 < nrows g"
    using normalize_returns_square [OF wf1] that sh by auto
  show ?thesis using oz1 step ret by (simp add: Let_def)
qed


theorem circular_mask_zero_outside_witness:
  "wf_array \<lparr>nrows = 22, ncols = 22, buf = map real [0..<484]\<rparr> \<and>
   \<not> in_disc (11, 11) 1 0 0 \<and>
   (let g = \<lparr>nrows = 22, ncols = 22, buf = map real [0..<484]\<rparr>;
        msk = circular_mask (nrows g) (ncols g); masked = apply_mask g msk in
      outside_zero masked \<and> px masked 0 0 = 0 \<and>
      (\<exists>b. normalize_brain (buf masked) msk = Inr b \<and>
           outside_zero (apply_threshold simple_lib (masked\<lparr>buf := b\<rparr>) msk)))"
proof -
  let ?g = "\<lparr>nrows = 22, ncols = 22, buf = map real [0..<484]\<rparr>"
  let ?m = "circular_mask (nrows ?g) (ncols ?g)"
  have wf: "wf_array ?g" by (simp add: wf_array_def)
  have out: "\<not> in_disc (11, 11) 1 0 0" by (simp add: in_disc_def)
  note inst = circular_mask_zero_outside [OF wf, of simple_lib, unfolded Let_def]
  have oz: "outside_zero (apply_mask ?g ?m)" using inst by blast
  have p0: "px (apply_mask ?g ?m) 0 0 = 0"
    using oz out by (simp add: outside_zero_def Let_def apply_mask_def)
  obtain b where b: "normalize_brain (buf (apply_mask ?g ?m)) ?m = Inr b"
    using inst by auto
  then have "outside_zero (apply_threshold simple_lib (apply_mask ?g ?m\<lparr>buf := b\<rparr>) ?m)"
    using inst by blast
  with wf out oz p0 b show ?thesis unfolding Let_def by blast
qed

section \<open>The guard of the normalisation\<close>

text \<open>
  A constant gradient field: the test of line 78 skips the division that line 79 would
  otherwise perform with a zero divisor.
\<close>

theorem constant_field_guard_counterexample:
  "normalize_brain [1, 1] [True, True] = Inr [1, 1] \<and>
   normalize_unguarded [1, 1] [True, True] = Inl FloatingPointError \<and>
   normalize_brain [1, 1] [True, True] \<noteq> normalize_unguarded [1, 1] [True, True]"
  by (simp add: normalize_brain_def normalize_unguarded_def Let_def np_max_def np_min_def
      np_divide_def bool_assign_def bind_def)

lemma constant_Min_Max:
  fixes bg :: "real list"
  assumes "bg \<noteq> []" "\<forall>v \<in> set bg. v = c"
  shows "Min (set bg) = c" "Max (set bg) = c"
proof -
  have "set bg = {c}" using assms by (cases bg) auto
  then show "Min (set bg) = c" "Max (set bg) = c" by simp_all
qed

text \<open>
  Claim C5, amended.  The normalisation has one guard, the test of line 78: on a brain
  area whose values are all equal it returns the array unchanged, where the unguarded
  division would divide by zero.  When the maximum exceeds the minimum the guarded and the
  unguarded computation agree, and an empty brain area is not guarded against: it raises
  ValueError.
\<close>

theorem normalize_brain_single_guard:
  assumes "length gradients = length msk"
  shows "let bg = bool_index gradients msk in
     (bg \<noteq> [] \<and> (\<forall>v \<in> set bg. v = c) \<longrightarrow>
        normalize_brain gradients msk = Inr gradients \<and>
        normalize_unguarded gradients msk = Inl FloatingPointError) \<and>
     (bg \<noteq> [] \<and> Min (set bg) < Max (set bg) \<longrightarrow>
        normalize_brain gradients msk = normalize_unguarded gradients msk) \<and>
     (bg = [] \<longrightarrow> normalize_brain gradients msk = Inl ValueError)"
proof -
  let ?bg = "bool_index gradients msk"
  have len: "length ?bg = length (filter id msk)"
    using assms by (rule length_bool_index)
  have A: "normalize_brain gradients msk = Inr gradients \<and>
        normalize_unguarded gradients msk = Inl FloatingPointError"
    if "?bg \<noteq> []" "\<forall>v \<in> set ?bg. v = c"
  proof -
    have mm: "Min (set ?bg) = c" "Max (set ?bg) = c"
      using constant_Min_Max [OF that] by simp_all
    show ?thesis
      using that(1) len
      by (simp add: normalize_brain_def normalize_unguarded_def Let_def np_max_def np_min_def
          np_divide_def bool_assign_def bind_def put_mask_bool_index mm)
  qed
  have B: "normalize_brain gradients msk = normalize_unguarded gradients msk"
    if "?bg \<noteq> []" "Min (set ?bg) < Max (set ?bg)"
    using that
    by (simp add: normalize_brain_def normalize_unguarded_def Let_def np_max_def np_min_def
        np_divide_def bind_def)
  have C: "normalize_brain gradients msk = Inl ValueError" if "?bg = []"
    using that by (simp add: normalize_brain_def Let_def np_max_def)
  show ?thesis using A B C by (simp add: Let_def)
qed

theorem normalize_brain_single_guard_witness:
  "length [3, 3, 5 :: real] = length [True, True, False] \<and>
   bool_index [3, 3, 5 :: real] [True, True, False] = [3, 3] \<and>
   normalize_brain [3, 3, 5] [True, True, False] = Inr [3, 3, 5] \<and>
   normalize_unguarded [3, 3, 5] [True, True, False] = Inl FloatingPointError"
  using normalize_brain_single_guard [of "[3, 3, 5]" "[True, True, False]" 3]
  by (simp add: Let_def)

section \<open>Exceptions leave the script\<close>

lemma fst_seq:
  "fst (seq m f) = fst m @ (case snd m of Inl e \<Rightarrow> [] | Inr v \<Rightarrow> fst (f v))"
  by (cases m) (auto simp: seq_def split: sum.splits prod.splits)

lemma snd_seq:
  "snd (seq m f) = (case snd m of Inl e \<Rightarrow> Inl e | Inr v \<Rightarrow> snd (f v))"
  by (cases m) (auto simp: seq_def split: sum.splits prod.splits)

lemma calls_seq:
  "calls (seq m f) = calls m @ (case snd m of Inl e \<Rightarrow> [] | Inr v \<Rightarrow> calls (f v))"
  by (simp add: calls_def fst_seq split: sum.splits)

lemma fail_last_ret: "fail_last (ret v)"
  by (simp add: fail_last_def ret_def)

lemma fail_last_emit: "fail_last (emit c)"
  by (simp add: fail_last_def emit_def)

lemma fail_last_invoke: "fail_last (invoke c r)"
  by (cases r) (simp_all add: fail_last_def invoke_def)

lemma fail_last_seq:
  assumes m: "fail_last m" and f: "\<And>v. fail_last (f v)"
  shows "fail_last (seq m f)"
proof (cases "snd m")
  case (Inl e)
  then have "fst (seq m f) = fst m" "snd (seq m f) = Inl e"
    by (simp_all add: fst_seq snd_seq)
  with m Inl show ?thesis by (simp add: fail_last_def)
next
  case (Inr v)
  have clean: "snd (fst m ! i) = None" if "i < length (fst m)" for i
    using m that Inr by (cases "snd (fst m ! i)") (auto simp: fail_last_def)
  have t: "fst (seq m f) = fst m @ fst (f v)" and r: "snd (seq m f) = snd (f v)"
    using Inr by (simp_all add: fst_seq snd_seq)
  show ?thesis
    unfolding fail_last_def t r
  proof (intro conjI allI impI)
    fix i e
    assume i: "i < length (fst m @ fst (f v))" and s: "snd ((fst m @ fst (f v)) ! i) = Some e"
    have ge: "\<not> i < length (fst m)" using clean s by (auto simp: nth_append)
    then have "i - length (fst m) < length (fst (f v))"
      and "snd (fst (f v) ! (i - length (fst m))) = Some e"
      using i s by (auto simp: nth_append)
    then have "Suc (i - length (fst m)) = length (fst (f v)) \<and> snd (f v) = Inl e"
      using f [of v] by (simp add: fail_last_def)
    then show "Suc i = length (fst m @ fst (f v))" and "snd (f v) = Inl e"
      using ge by auto
  next
    fix e assume "snd (f v) = Inl e"
    then have "fst (f v) \<noteq> [] \<and> snd (last (fst (f v))) = Some e"
      using f [of v] by (simp add: fail_last_def)
    then show "fst m @ fst (f v) \<noteq> []" and "snd (last (fst m @ fst (f v))) = Some e"
      by auto
  qed
qed

lemma fail_last_emit_all: "fail_last (emit_all cs)"
  by (induction cs) (auto intro: fail_last_seq fail_last_emit fail_last_ret)

lemma fail_last_select_model: "fail_last (select_model E)"
  unfolding select_model_def load_xception_model_def
  by (intro fail_last_seq fail_last_emit fail_last_invoke fail_last_ret)
     (auto intro!: fail_last_seq fail_last_emit fail_last_invoke fail_last_ret)

lemma fail_last_preprocess: "fail_last (preprocess_and_predict E file model img_size)"
  unfolding preprocess_and_predict_def Let_def
  by (intro fail_last_seq fail_last_emit fail_last_invoke fail_last_ret)

lemma fail_last_report: "fail_last (report L E model img_size img_array prediction)"
  unfolding report_def
  by (intro fail_last_seq fail_last_emit fail_last_invoke fail_last_ret fail_last_emit_all)

text \<open>
  Claim C4.  In every run of the script, a call that raises is the last call made and its
  exception is the outcome of the script: nothing is caught, nothing is called again after
  a failure, and nothing runs after it.  Conversely the script ends with an exception only
  when its last call raised it.
\<close>

theorem script_faults_propagate: "fail_last (script L E)"
  unfolding script_def
  by (intro fail_last_seq fail_last_emit)
     (auto split: option.splits
       intro!: fail_last_seq fail_last_ret fail_last_select_model fail_last_preprocess fail_last_report)

lemma fail_lastD:
  "fail_last m \<Longrightarrow> i < length (fst m) \<Longrightarrow> fst m ! i = (c, Some e) \<Longrightarrow>
   Suc i = length (fst m) \<and> snd m = Inl e"
  by (simp add: fail_last_def)

theorem script_faults_propagate_witness:
  "(let E = \<lparr>uploaded_file = Some ''scan.png'', selected_model = ''Custom_CNN'',
              keras_Xception = Inr (),
              load_weights = (\<lambda>f. Inl (LibraryError ''FileNotFoundError'')),
              load_model = (\<lambda>f. Inl (LibraryError ''FileNotFoundError'')),
              load_img = (\<lambda>f s. Inl (LibraryError ''UnidentifiedImageError'')),
              generate_content = (\<lambda>r c i. Inl (LibraryError ''ServiceUnavailable''))\<rparr>
    in fst (script simple_lib E) ! 5 = (LoadModel ''cnn_model.h5'', Some (LibraryError ''FileNotFoundError''))
       \<and> length (fst (script simple_lib E)) = 6
       \<and> snd (script simple_lib E) = Inl (LibraryError ''FileNotFoundError''))"
proof -
  let ?E = "\<lparr>uploaded_file = Some ''scan.png'', selected_model = ''Custom_CNN'',
              keras_Xception = Inr (),
              load_weights = (\<lambda>f. Inl (LibraryError ''FileNotFoundError'')),
              load_model = (\<lambda>f. Inl (LibraryError ''FileNotFoundError'')),
              load_img = (\<lambda>f s. Inl (LibraryError ''UnidentifiedImageError'')),
              generate_content = (\<lambda>r c i. Inl (LibraryError ''ServiceUnavailable''))\<rparr>"
  have ev: "5 < length (fst (script simple_lib ?E))"
    "fst (script simple_lib ?E) ! 5 = (LoadModel ''cnn_model.h5'', Some (LibraryError ''FileNotFoundError''))"
    by (simp_all add: script_def select_model_def seq_def emit_def invoke_def ret_def)
  have "Suc 5 = length (fst (script simple_lib ?E))
      \<and> snd (script simple_lib ?E) = Inl (LibraryError ''FileNotFoundError'')"
    using script_faults_propagate ev by (rule fail_lastD)
  with ev(2) show ?thesis unfolding Let_def by simp
qed

section \<open>The upload form\<close>

lemma calls_emit: "calls (emit c) = [c]" "snd (emit c) = Inr ()"
  by (simp_all add: calls_def emit_def)

lemma calls_ret: "calls (ret v) = []" "snd (ret v) = Inr v"
  by (simp_all add: calls_def ret_def)

lemma calls_invoke: "calls (invoke c r) = [c]" "snd (invoke c r) = r"
  by (cases r; simp add: calls_def invoke_def)+

text \<open>
  Claim C7.  Every run starts with the same four calls, the fourth being the upload form
  with exactly the file types jpg, jpeg and png.  Without an uploaded file the run consists
  of these four calls and ends normally; with one, the next call is the model selection.
  So anything beyond the upload form runs only when an uploaded file is present.
\<close>

theorem upload_gate:
  "take 4 (calls (script L E)) =
     [GenaiConfigure, StTitle ''Brain Tumor Classification'',
      StWrite ''Upload an image of a brain MRI scan to classify.'',
      StFileUploader ''Choose an image...'' [''jpg'', ''jpeg'', ''png'']] \<and>
   (uploaded_file E = None \<longrightarrow>
      script L E =
        ([(GenaiConfigure, None), (StTitle ''Brain Tumor Classification'', None),
          (StWrite ''Upload an image of a brain MRI scan to classify.'', None),
          (StFileUploader ''Choose an image...'' [''jpg'', ''jpeg'', ''png''], None)], Inr ())) \<and>
   (uploaded_file E \<noteq> None \<longrightarrow>
      calls (script L E) ! 4 = StRadio ''Select Model'' [''Transfer Learning - Xception'', ''Custom_CNN'']) \<and>
   (4 < length (calls (script L E)) \<longleftrightarrow> uploaded_file E \<noteq> None)"
proof (cases "uploaded_file E")
  case None
  then have "script L E =
        ([(GenaiConfigure, None), (StTitle ''Brain Tumor Classification'', None),
          (StWrite ''Upload an image of a brain MRI scan to classify.'', None),
          (StFileUploader ''Choose an image...'' [''jpg'', ''jpeg'', ''png''], None)], Inr ())"
    by (simp add: script_def seq_def emit_def ret_def)
  with None show ?thesis by (simp add: calls_def)
next
  case (Some upl)
  have "\<exists>rest. calls (script L E) =
     [GenaiConfigure, StTitle ''Brain Tumor Classification'',
      StWrite ''Upload an image of a brain MRI scan to classify.'',
      StFileUploader ''Choose an image...'' [''jpg'', ''jpeg'', ''png''],
      StRadio ''Select Model'' [''Transfer Learning - Xception'', ''Custom_CNN'']] @ rest"
    by (simp add: script_def select_model_def calls_seq calls_emit Some)
  then obtain rest where "calls (script L E) =
     [GenaiConfigure, StTitle ''Brain Tumor Classification'',
      StWrite ''Upload an image of a brain MRI scan to classify.'',
      StFileUploader ''Choose an image...'' [''jpg'', ''jpeg'', ''png''],
      StRadio ''Select Model'' [''Transfer Learning - Xception'', ''Custom_CNN'']] @ rest" ..
  with Some show ?thesis by simp
qed

theorem upload_gate_witness:
  "(let E = \<lparr>uploaded_file = None, selected_model = ''Custom_CNN'',
              keras_Xception = Inr (),
              load_weights = (\<lambda>f. Inl (LibraryError ''FileNotFoundError'')),
              load_model = (\<lambda>f. Inl (LibraryError ''FileNotFoundError'')),
              load_img = (\<lambda>f s. Inl (LibraryError ''UnidentifiedImageError'')),
              generate_content = (\<lambda>r c i. Inl (LibraryError ''ServiceUnavailable''))\<rparr>
    in uploaded_file E = None \<and>
       script simple_lib E =
        ([(GenaiConfigure, None), (StTitle ''Brain Tumor Classification'', None),
          (StWrite ''Upload an image of a brain MRI scan to classify.'', None),
          (StFileUploader ''Choose an image...'' [''jpg'', ''jpeg'', ''png''], None)], Inr ()) \<and>
       \<not> 4 < length (calls (script simple_lib E)))"
  using upload_gate [of simple_lib "\<lparr>uploaded_file = None, selected_model = ''Custom_CNN'',
              keras_Xception = Inr (),
              load_weights = (\<lambda>f. Inl (LibraryError ''FileNotFoundError'')),
              load_model = (\<lambda>f. Inl (LibraryError ''FileNotFoundError'')),
              load_img = (\<lambda>f s. Inl (LibraryError ''UnidentifiedImageError'')),
              generate_content = (\<lambda>r c i. Inl (LibraryError ''ServiceUnavailable''))\<rparr>"]
  by (simp add: Let_def calls_def)

section \<open>The model selection\<close>

lemma select_model_xception:
  assumes "selected_model E = ''Transfer Learning - Xception''"
  shows "select_model E =
     (case keras_Xception E of
        Inl e \<Rightarrow>
          ([(StRadio ''Select Model'' [''Transfer Learning - Xception'', ''Custom_CNN''], None),
            (KerasXception, Some e)], Inl e)
      | Inr u \<Rightarrow>
          (case load_weights E ''xception_model.weights.h5'' of
             Inl e \<Rightarrow>
               ([(StRadio ''Select Model'' [''Transfer Learning - Xception'', ''Custom_CNN''], None),
                 (KerasXception, None), (LoadWeights ''xception_model.weights.h5'', Some e)], Inl e)
           | Inr m \<Rightarrow>
               ([(StRadio ''Select Model'' [''Transfer Learning - Xception'', ''Custom_CNN''], None),
                 (KerasXception, None), (LoadWeights ''xception_model.weights.h5'', None)],
                Inr (m, (299, 299)))))"
  using assms
  by (simp add: select_model_def load_xception_model_def seq_def emit_def invoke_def ret_def
      split: sum.splits)

lemma select_model_custom:
  assumes "selected_model E \<noteq> ''Transfer Learning - Xception''"
  shows "select_model E =
     (case load_model E ''cnn_model.h5'' of
        Inl e \<Rightarrow>
          ([(StRadio ''Select Model'' [''Transfer Learning - Xception'', ''Custom_CNN''], None),
            (LoadModel ''cnn_model.h5'', Some e)], Inl e)
      | Inr m \<Rightarrow>
          ([(StRadio ''Select Model'' [''Transfer Learning - Xception'', ''Custom_CNN''], None),
            (LoadModel ''cnn_model.h5'', None)], Inr (m, (224, 224))))"
  using assms
  by (simp add: select_model_def seq_def emit_def invoke_def ret_def split: sum.splits)

text \<open>
  Claim C6.  The radio button offers exactly two models.  With the selection
  'Transfer Learning - Xception' the only weight file loaded is
  \<open>xception_model.weights.h5\<close>, no saved model is loaded, and when the loading succeeds
  the image size is (299, 299).  With any other selection the saved model \<open>cnn_model.h5\<close> is
  loaded and the image size is (224, 224).
\<close>

theorem model_toggle:
  "(selected_model E = ''Transfer Learning - Xception'' \<longrightarrow>
      (\<forall>c \<in> set (calls (select_model E)). \<forall>f. c \<noteq> LoadModel f \<and> 
          (c = LoadWeights f \<longrightarrow> f = ''xception_model.weights.h5'')) \<and>
      (\<forall>u m. keras_Xception E = Inr u \<and> load_weights E ''xception_model.weights.h5'' = Inr m \<longrightarrow>
         select_model E =
           ([(StRadio ''Select Model'' [''Transfer Learning - Xception'', ''Custom_CNN''], None),
             (KerasXception, None), (LoadWeights ''xception_model.weights.h5'', None)],
            Inr (m, (299, 299))))) \<and>
   (selected_model E \<noteq> ''Transfer Learning - Xception'' \<longrightarrow>
      calls (select_model E) =
        [StRadio ''Select Model'' [''Transfer Learning - Xception'', ''Custom_CNN''],
         LoadModel ''cnn_model.h5''] \<and>
      (\<forall>m. load_model E ''cnn_model.h5'' = Inr m \<longrightarrow>
         select_model E =
           ([(StRadio ''Select Model'' [''Transfer Learning - Xception'', ''Custom_CNN''], None),
             (LoadModel ''cnn_model.h5'', None)],
            Inr (m, (224, 224))))) \<and>
   (\<forall>v. snd (select_model E) = Inr v \<longrightarrow>
      (if selected_model E = ''Transfer Learning - Xception''
       then load_weights E ''xception_model.weights.h5'' = Inr (fst v) \<and> snd v = (299, 299)
       else load_model E ''cnn_model.h5'' = Inr (fst v) \<and> snd v = (224, 224)))"
proof (cases "selected_model E = ''Transfer Learning - Xception''")
  case True
  show ?thesis
    using True select_model_xception [OF True]
    by (auto simp: calls_def split: sum.splits)
next
  case False
  show ?thesis
    using False select_model_custom [OF False]
    by (auto simp: calls_def split: sum.splits)
qed

theorem model_toggle_witness:
  "(let E = \<lparr>uploaded_file = Some ''scan.png'', selected_model = ''Custom_CNN'',
              keras_Xception = Inr (),
              load_weights = (\<lambda>f. Inl (LibraryError ''FileNotFoundError'')),
              load_model = (\<lambda>f. Inr \<lparr>predict = (\<lambda>img. Inr [1/10, 7/10, 3/20, 1/20]),
                                       class_gradient = (\<lambda>img k. Inr img)\<rparr>),
              load_img = (\<lambda>f s. Inl (LibraryError ''UnidentifiedImageError'')),
              generate_content = (\<lambda>r c i. Inl (LibraryError ''ServiceUnavailable''))\<rparr>
    in selected_model E \<noteq> ''Transfer Learning - Xception'' \<and>
       select_model E =
           ([(StRadio ''Select Model'' [''Transfer Learning - Xception'', ''Custom_CNN''], None),
             (LoadModel ''cnn_model.h5'', None)],
            Inr (\<lparr>predict = (\<lambda>img. Inr [1/10, 7/10, 3/20, 1/20]),
                  class_gradient = (\<lambda>img k. Inr img)\<rparr>, (224, 224))))"
proof -
  let ?m = "\<lparr>predict = (\<lambda>img. Inr [1/10, 7/10, 3/20, 1/20]),
            class_gradient = (\<lambda>img k. Inr img)\<rparr> :: model"
  let ?E = "\<lparr>uploaded_file = Some ''scan.png'', selected_model = ''Custom_CNN'',
              keras_Xception = Inr (),
              load_weights = (\<lambda>f. Inl (LibraryError ''FileNotFoundError'')),
              load_model = (\<lambda>f. Inr \<lparr>predict = (\<lambda>img. Inr [1/10, 7/10, 3/20, 1/20]),
                                       class_gradient = (\<lambda>img k. Inr img)\<rparr>),
              load_img = (\<lambda>f s. Inl (LibraryError ''UnidentifiedImageError'')),
              generate_content = (\<lambda>r c i. Inl (LibraryError ''ServiceUnavailable''))\<rparr>"
  have sel: "selected_model ?E \<noteq> ''Transfer Learning - Xception''" by simp
  have lm: "load_model ?E ''cnn_model.h5'' = Inr ?m" by simp
  have res: "select_model ?E =
           ([(StRadio ''Select Model'' [''Transfer Learning - Xception'', ''Custom_CNN''], None),
             (LoadModel ''cnn_model.h5'', None)], Inr (?m, (224, 224)))"
    using model_toggle [of ?E, THEN conjunct2, THEN conjunct1, rule_format, OF sel,
        THEN conjunct2, rule_format, OF lm] .
  show ?thesis unfolding Let_def by (intro conjI) (rule sel, rule res)
qed

section \<open>The predicted class\<close>

lemma first_index_props:
  "v \<in> set xs \<Longrightarrow>
   first_index v xs < length xs \<and> xs ! first_index v xs = v \<and>
   (\<forall>j < first_index v xs. xs ! j \<noteq> v)"
proof (induction xs)
  case Nil
  then show ?case by simp
next
  case (Cons x xs)
  show ?case
  proof (cases "x = v")
    case True
    then show ?thesis by simp
  next
    case False
    with Cons have IH: "first_index v xs < length xs \<and> xs ! first_index v xs = v \<and>
        (\<forall>j < first_index v xs. xs ! j \<noteq> v)" by simp
    have "(x # xs) ! j \<noteq> v" if "j < Suc (first_index v xs)" for j
      using that False IH by (cases j) auto
    with False IH show ?thesis by simp
  qed
qed

lemma np_argmax_props:
  assumes "np_argmax p = Inr k"
  shows "k < length p \<and> p ! k = Max (set p) \<and> (\<forall>j < length p. p ! j \<le> p ! k) \<and>
         (\<forall>j < k. p ! j < p ! k)"
proof -
  have ne: "p \<noteq> []" and k: "k = first_index (Max (set p)) p"
    using assms by (auto simp: np_argmax_def split: if_splits)
  have "Max (set p) \<in> set p" using ne by (intro Max_in) simp_all
  from first_index_props [OF this] k
  have a: "k < length p" and b: "p ! k = Max (set p)" and c: "\<forall>j < k. p ! j \<noteq> Max (set p)"
    by simp_all
  have le: "p ! j \<le> Max (set p)" if "j < length p" for j using that by simp
  have "p ! j < p ! k" if "j < k" for j
    using c le [of j] that a b by (simp add: order_less_le)
  with a b le show ?thesis by simp
qed

lemma np_argmax_returns: "p \<noteq> [] \<Longrightarrow> \<exists>k. np_argmax p = Inr k"
  by (simp add: np_argmax_def)

lemma calls_emit_all: "calls (emit_all cs) = cs" "snd (emit_all cs) = Inr ()"
  by (induction cs) (simp_all add: calls_seq snd_seq calls_emit calls_ret)

lemma report_calls:
  assumes "np_argmax p = Inr k" "index labels k = Inr r0"
  shows "\<exists>rest. calls (report L E model sz img p) =
            [NpArgmax, LabelsIndex k, WritePredicted r0] @ rest \<and>
            (\<forall>r. WritePredicted r \<notin> set rest)"
  using assms
  by (auto simp: report_def calls_seq snd_seq calls_emit calls_invoke calls_emit_all
      split: sum.splits)


lemma index_Inr: "index xs k = Inr v \<longleftrightarrow> k < length xs \<and> v = xs ! k"
  by (auto simp: index_def)

lemma report_shows_argmax:
  assumes "WritePredicted r \<in> set (calls (report L E model sz img p))"
  shows "\<exists>k. np_argmax p = Inr k \<and> k < length labels \<and> r = labels ! k"
proof (cases "np_argmax p")
  case (Inl e)
  then show ?thesis using assms
    by (simp add: report_def calls_seq calls_invoke)
next
  case (Inr k)
  show ?thesis
  proof (cases "index labels k")
    case (Inl e)
    then show ?thesis using assms Inr
      by (simp add: report_def calls_seq calls_invoke snd_seq)
  next
    case r0: (Inr r0)
    from report_calls [OF Inr r0, of L E model sz img] assms
    have "r = r0" by auto
    with Inr r0 show ?thesis by (simp add: index_Inr)
  qed
qed

lemma select_model_no_report: "WritePredicted r \<notin> set (calls (select_model E))"
  by (auto simp: select_model_def load_xception_model_def calls_seq calls_emit calls_invoke
      calls_ret snd_seq split: sum.splits)

lemma preprocess_run:
  "calls (preprocess_and_predict E upl m sz) =
     LoadImg upl sz # (case load_img E upl sz of Inl e \<Rightarrow> [] | Inr img0 \<Rightarrow> [ModelPredict])"
  "snd (preprocess_and_predict E upl m sz) =
     (case load_img E upl sz of Inl e \<Rightarrow> Inl e
      | Inr img0 \<Rightarrow>
         (case predict m (amap (map3 (\<lambda>v. v / 255)) (amap (map3 (\<lambda>v. real (unat v))) img0)) of
            Inl e \<Rightarrow> Inl e
          | Inr p \<Rightarrow> Inr (amap (map3 (\<lambda>v. v / 255)) (amap (map3 (\<lambda>v. real (unat v))) img0), p)))"
  by (simp_all add: preprocess_and_predict_def Let_def calls_seq snd_seq calls_invoke calls_ret
      split: sum.splits)

lemma script_calls_report:
  assumes "WritePredicted r \<in> set (calls (script L E))"
  shows "\<exists>upl m sz img0 p. uploaded_file E = Some upl \<and> snd (select_model E) = Inr (m, sz) \<and>
           load_img E upl sz = Inr img0 \<and>
           predict m (amap (map3 (\<lambda>v. v / 255)) (amap (map3 (\<lambda>v. real (unat v))) img0)) = Inr p \<and>
           WritePredicted r \<in> set (calls (report L E m sz
              (amap (map3 (\<lambda>v. v / 255)) (amap (map3 (\<lambda>v. real (unat v))) img0)) p))"
proof (cases "uploaded_file E")
  case None
  then show ?thesis using assms
    by (simp add: script_def calls_seq calls_emit calls_ret snd_seq)
next
  case (Some upl)
  show ?thesis
  proof (cases "snd (select_model E)")
    case (Inl e)
    then show ?thesis using assms Some select_model_no_report [of r E]
      by (simp add: script_def calls_seq calls_emit calls_ret snd_seq)
  next
    case (Inr ms)
    obtain m sz where ms: "ms = (m, sz)" by (cases ms)
    have inrep: "WritePredicted r \<in> set (calls (seq (preprocess_and_predict E upl m sz)
           (\<lambda>(img_array, prediction). report L E m sz img_array prediction)))"
      using assms Some Inr ms select_model_no_report [of r E]
      by (simp add: script_def calls_seq calls_emit calls_ret snd_seq)
    show ?thesis
    proof (cases "load_img E upl sz")
      case (Inl e)
      then show ?thesis using inrep
        by (simp add: calls_seq preprocess_run)
    next
      case img: (Inr img0)
      let ?img = "amap (map3 (\<lambda>v. v / 255)) (amap (map3 (\<lambda>v. real (unat v))) img0)"
      show ?thesis
      proof (cases "predict m ?img")
        case (Inl e)
        then show ?thesis using inrep img
          by (simp add: calls_seq preprocess_run)
      next
        case p: (Inr p)
        have "WritePredicted r \<in> set (calls (report L E m sz ?img p))"
          using inrep img p
          by (simp add: calls_seq preprocess_run)
        with Some Inr ms img p show ?thesis by simp
      qed
    qed
  qed
qed


lemma script_reaches_report:
  assumes "uploaded_file E = Some upl" "snd (select_model E) = Inr (m, sz)"
    "load_img E upl sz = Inr img0"
    "predict m (amap (map3 (\<lambda>v. v / 255)) (amap (map3 (\<lambda>v. real (unat v))) img0)) = Inr p"
  shows "set (calls (report L E m sz
            (amap (map3 (\<lambda>v. v / 255)) (amap (map3 (\<lambda>v. real (unat v))) img0)) p))
         \<subseteq> set (calls (script L E))"
  using assms by (auto simp: script_def calls_seq snd_seq calls_emit preprocess_run)

text \<open>
  Claim C1.  Whenever the script displays a predicted class, that class is the label at
  the index \<open>np.argmax\<close> gives for the probability vector the model returned for the
  uploaded image: the first position of the maximum.  For every vector of four
  probabilities the classification succeeds, the index is below four, and the report
  opens by displaying the label at that index of the fixed list \<open>labels\<close>.
\<close>

theorem predicted_class_is_argmax:
  "(\<forall>r. WritePredicted r \<in> set (calls (script L E)) \<longrightarrow>
      (\<exists>upl m sz img0 p k.
          uploaded_file E = Some upl \<and> snd (select_model E) = Inr (m, sz) \<and>
          load_img E upl sz = Inr img0 \<and>
          predict m (amap (map3 (\<lambda>v. v / 255)) (amap (map3 (\<lambda>v. real (unat v))) img0)) = Inr p \<and>
          np_argmax p = Inr k \<and> k < length p \<and> p ! k = Max (set p) \<and>
          (\<forall>j < k. p ! j < p ! k) \<and> k < length labels \<and> r = labels ! k)) \<and>
   (\<forall>p. length p = 4 \<longrightarrow>
      (\<exists>k < 4. np_argmax p = Inr k \<and> p ! k = Max (set p) \<and>
         take 3 (calls (report L E model sz img p)) =
           [NpArgmax, LabelsIndex k, WritePredicted (labels ! k)]))"
proof (intro conjI allI impI)
  fix r assume "WritePredicted r \<in> set (calls (script L E))"
  from script_calls_report [OF this]
  obtain upl m sz img0 p where
    a: "uploaded_file E = Some upl" "snd (select_model E) = Inr (m, sz)"
       "load_img E upl sz = Inr img0"
       "predict m (amap (map3 (\<lambda>v. v / 255)) (amap (map3 (\<lambda>v. real (unat v))) img0)) = Inr p"
    and b: "WritePredicted r \<in> set (calls (report L E m sz
              (amap (map3 (\<lambda>v. v / 255)) (amap (map3 (\<lambda>v. real (unat v))) img0)) p))"
    by blast
  from report_shows_argmax [OF b]
  obtain k where k: "np_argmax p = Inr k" "k < length labels" "r = labels ! k" by blast
  from np_argmax_props [OF k(1)] a k
  show "\<exists>upl m sz img0 p k.
          uploaded_file E = Some upl \<and> snd (select_model E) = Inr (m, sz) \<and>
          load_img E upl sz = Inr img0 \<and>
          predict m (amap (map3 (\<lambda>v. v / 255)) (amap (map3 (\<lambda>v. real (unat v))) img0)) = Inr p \<and>
          np_argmax p = Inr k \<and> k < length p \<and> p ! k = Max (set p) \<and>
          (\<forall>j < k. p ! j < p ! k) \<and> k < length labels \<and> r = labels ! k"
    by blast
next
  fix p :: "real list" assume len: "length p = 4"
  then have "p \<noteq> []" by auto
  from np_argmax_returns [OF this] obtain k where k: "np_argmax p = Inr k" ..
  from np_argmax_props [OF k] len have k4: "k < 4" and mx: "p ! k = Max (set p)" by simp_all
  have idx: "index labels k = Inr (labels ! k)" using k4 by (simp add: index_def labels_def)
  from report_calls [OF k idx, of L E model sz img]
  have "take 3 (calls (report L E model sz img p)) =
           [NpArgmax, LabelsIndex k, WritePredicted (labels ! k)]" by auto
  with k k4 mx show "\<exists>k < 4. np_argmax p = Inr k \<and> p ! k = Max (set p) \<and>
         take 3 (calls (report L E model sz img p)) =
           [NpArgmax, LabelsIndex k, WritePredicted (labels ! k)]" by blast
qed

theorem predicted_class_is_argmax_witness:
  "(let E = \<lparr>uploaded_file = Some ''scan.png'', selected_model = ''Custom_CNN'',
          keras_Xception = Inr (),
          load_weights = (\<lambda>f. Inl (LibraryError ''FileNotFoundError'')),
          load_model = (\<lambda>f. Inr \<lparr>predict = (\<lambda>img. Inr [1/10, 7/10, 3/20, 1/20]),
                                   class_gradient = (\<lambda>img k. Inr img)\<rparr>),
          load_img = (\<lambda>f s. Inr \<lparr>nrows = 1, ncols = 1, buf = [(255, 0, 0)]\<rparr>),
          generate_content = (\<lambda>r c i. Inl (LibraryError ''ServiceUnavailable''))\<rparr>;
        m = \<lparr>predict = (\<lambda>img. Inr [1/10, 7/10, 3/20, 1/20]),
             class_gradient = (\<lambda>img k. Inr img)\<rparr>;
        img = \<lparr>nrows = 1, ncols = 1, buf = [(1, 0, 0)]\<rparr>
    in length [1/10, 7/10, 3/20, 1/20 :: real] = 4 \<and>
       np_argmax [1/10, 7/10, 3/20, 1/20] = Inr 1 \<and>
       take 3 (calls (report simple_lib E m (224, 224) img [1/10, 7/10, 3/20, 1/20])) =
         [NpArgmax, LabelsIndex 1, WritePredicted ''Meningioma''] \<and>
       WritePredicted ''Meningioma'' \<in> set (calls (script simple_lib E)) \<and>
       (\<exists>p k. np_argmax p = Inr k \<and> p ! k = Max (set p) \<and> ''Meningioma'' = labels ! k))"
proof -
  let ?p = "[1/10, 7/10, 3/20, 1/20] :: real list"
  let ?E = "\<lparr>uploaded_file = Some ''scan.png'', selected_model = ''Custom_CNN'',
          keras_Xception = Inr (),
          load_weights = (\<lambda>f. Inl (LibraryError ''FileNotFoundError'')),
          load_model = (\<lambda>f. Inr \<lparr>predict = (\<lambda>img. Inr [1/10, 7/10, 3/20, 1/20]),
                                   class_gradient = (\<lambda>img k. Inr img)\<rparr>),
          load_img = (\<lambda>f s. Inr \<lparr>nrows = 1, ncols = 1, buf = [(255, 0, 0)]\<rparr>),
          generate_content = (\<lambda>r c i. Inl (LibraryError ''ServiceUnavailable''))\<rparr>"
  let ?m = "\<lparr>predict = (\<lambda>img. Inr [1/10, 7/10, 3/20, 1/20]),
             class_gradient = (\<lambda>img k. Inr img)\<rparr> :: model"
  let ?img = "\<lparr>nrows = 1, ncols = 1, buf = [(1, 0, 0)]\<rparr> :: real pixel ndarray"
  have len: "length ?p = 4" by simp
  have am: "np_argmax ?p = Inr 1" by (simp add: np_argmax_def)
  have lb: "labels ! 1 = ''Meningioma''" by (simp add: labels_def)
  from predicted_class_is_argmax [of simple_lib ?E ?m "(224, 224)" ?img,
      THEN conjunct2, rule_format, OF len]
  obtain k where "np_argmax ?p = Inr k"
    "take 3 (calls (report simple_lib ?E ?m (224, 224) ?img ?p)) =
       [NpArgmax, LabelsIndex k, WritePredicted (labels ! k)]" by blast
  with am lb have "take 3 (calls (report simple_lib ?E ?m (224, 224) ?img ?p)) =
       [NpArgmax, LabelsIndex 1, WritePredicted ''Meningioma'']" by simp
  then have t3: "take 3 (calls (report simple_lib ?E ?m (224, 224) ?img ?p)) =
       [NpArgmax, LabelsIndex 1, WritePredicted ''Meningioma'']" .
  let ?raw = "\<lparr>nrows = 1, ncols = 1, buf = [(255, 0, 0)]\<rparr> :: uint8 pixel ndarray"
  have up: "uploaded_file ?E = Some ''scan.png''" by simp
  have sel: "snd (select_model ?E) = Inr (?m, (224, 224))"
    by (simp add: select_model_custom)
  have li: "load_img ?E ''scan.png'' (224, 224) = Inr ?raw"
    by simp
  have pr: "predict ?m (amap (map3 (\<lambda>v. v / 255)) (amap (map3 (\<lambda>v. real (unat v)))
               ?raw)) = Inr ?p" by simp
  have idx: "index labels 1 = Inr ''Meningioma''" by (simp add: index_def labels_def)
  let ?R = "report simple_lib ?E ?m (224, 224)
          (amap (map3 (\<lambda>v. v / 255)) (amap (map3 (\<lambda>v. real (unat v)))
               ?raw)) ?p"
  from report_calls [OF am idx] obtain rest where
    "calls ?R = [NpArgmax, LabelsIndex 1, WritePredicted ''Meningioma''] @ rest" by blast
  then have "set (calls ?R) = set ([NpArgmax, LabelsIndex 1, WritePredicted ''Meningioma''] @ rest)"
    by (rule arg_cong)
  then have inR: "WritePredicted ''Meningioma'' \<in> set (calls ?R)"
    by (simp del: One_nat_def)
  have mem: "WritePredicted ''Meningioma'' \<in> set (calls (script simple_lib ?E))"
    by (rule subsetD [OF script_reaches_report [OF up sel li pr] inR])
  from predicted_class_is_argmax [of simple_lib ?E ?m "(224, 224)" ?img,
      THEN conjunct1, rule_format, OF mem]
  have ex: "\<exists>p k. np_argmax p = Inr k \<and> p ! k = Max (set p) \<and> ''Meningioma'' = labels ! k"
    by blast
  from len am t3 mem ex show ?thesis unfolding Let_def by (intro conjI)
qed

section \<open>The bar chart\<close>







section \<open>The saliency computation step by step\<close>


















lemma bsel_id: "i < n \<Longrightarrow> bsel n i = i"
  by (auto simp: bsel_def)

lemma px_amap: "y * ncols a + x < length (buf a) \<Longrightarrow> px (amap f a) y x = f (px a y x)"
  by (simp add: px_def amap_def)

lemma amap_record:
  "amap f \<lparr>nrows = h, ncols = w, buf = map g js\<rparr> =
     \<lparr>nrows = h, ncols = w, buf = map (\<lambda>i. f (g i)) js\<rparr>"
  by (simp add: amap_def o_def)

lemma bind_Inr: "bind (Inr v) f = f v"
  by (simp add: bind_def)

lemma blend_eq:
  assumes h: "nrows heat = s" "ncols heat = s"
    and img: "wf_array img" "nrows img = s" "ncols img = s"
  shows "bind (broadcast2 (zip3 (\<lambda>h p. real (unat h) * 0.7 + p * 0.3)) heat
                 (amap (map3 (\<lambda>v. v * 255)) img))
              (\<lambda>superimposed_img. Inr (amap (map3 (np_uint8 L)) superimposed_img)) =
         Inr (tabulate s s (\<lambda>y x. map3 (np_uint8 L)
                (zip3 (\<lambda>h p. real (unat h) * 0.7 + (p * 255) * 0.3) (px heat y x) (px img y x))))"
proof -
  let ?f = "zip3 (\<lambda>h p. real (unat h) * 0.7 + p * 0.3)"
  let ?o = "amap (map3 (\<lambda>v. v * 255)) img"
  have sh: "nrows ?o = s" "ncols ?o = s" using img by (simp_all add: amap_def)
  have len: "length (buf img) = s * s" using img by (simp add: wf_array_def)
  have pt: "map3 (np_uint8 L) (?f (px heat (bsel s (i div s)) (bsel s (i mod s)))
                                 (px ?o (bsel s (i div s)) (bsel s (i mod s)))) =
            map3 (np_uint8 L) (zip3 (\<lambda>h p. real (unat h) * 0.7 + (p * 255) * 0.3)
                                 (px heat (i div s) (i mod s)) (px img (i div s) (i mod s)))"
    if "i < s * s" for i
  proof -
    have s0: "0 < s" using that by (cases s) auto
    have y: "i div s < s" using that by (simp add: less_mult_imp_div_less)
    have x: "i mod s < s" using s0 by simp
    have "i div s * ncols img + i mod s < length (buf img)" using that len img by simp
    from px_amap [OF this] have "px ?o (i div s) (i mod s) = map3 (\<lambda>v. v * 255) (px img (i div s) (i mod s))" .
    then show ?thesis
      by (simp add: bsel_id [OF y] bsel_id [OF x] zip3_def map3_def split: prod.splits)
  qed
  have bc: "broadcast2 ?f heat ?o =
      Inr \<lparr>nrows = s, ncols = s,
           buf = map (\<lambda>i. ?f (px heat (bsel s (i div s)) (bsel s (i mod s)))
                            (px ?o (bsel s (i div s)) (bsel s (i mod s)))) [0..<s * s]\<rparr>"
    unfolding broadcast2_def h sh by (simp add: bdim_def)
  have bufs: "map (\<lambda>i. map3 (np_uint8 L) (?f (px heat (bsel s (i div s)) (bsel s (i mod s)))
                            (px ?o (bsel s (i div s)) (bsel s (i mod s))))) [0..<s * s] =
        map (\<lambda>i. map3 (np_uint8 L) (zip3 (\<lambda>h p. real (unat h) * 0.7 + (p * 255) * 0.3)
                                 (px heat (i div s) (i mod s)) (px img (i div s) (i mod s))))
            [0..<s * s]"
  proof (rule map_cong [OF refl])
    fix i assume "i \<in> set [0..<s * s]"
    then have "i < s * s" by simp
    then show "map3 (np_uint8 L) (?f (px heat (bsel s (i div s)) (bsel s (i mod s)))
                            (px ?o (bsel s (i div s)) (bsel s (i mod s)))) =
        map3 (np_uint8 L) (zip3 (\<lambda>h p. real (unat h) * 0.7 + (p * 255) * 0.3)
                                 (px heat (i div s) (i mod s)) (px img (i div s) (i mod s)))"
      by (rule pt)
  qed
  show ?thesis
    unfolding bc bind_Inr tabulate_def amap_record bufs ..
qed


lemma contract_resize:
  assumes "shape_contract L" "0 < w" "0 < h"
  shows "nrows (cv_resize L a (w, h)) = h" "ncols (cv_resize L a (w, h)) = w"
    "wf_array (cv_resize L a (w, h))"
    "nrows (cv_resize_rgb L c (w, h)) = h" "ncols (cv_resize_rgb L c (w, h)) = w"
  using assms unfolding shape_contract_def by blast+

lemma contract_blur:
  assumes "shape_contract L"
  shows "nrows (cv_GaussianBlur L a k sigma) = nrows a" "ncols (cv_GaussianBlur L a k sigma) = ncols a"
  using assms unfolding shape_contract_def by blast+

lemma saliency_unfold:
  assumes c: "shape_contract L" and gr: "class_gradient m img k = Inr g"
    and img: "wf_array img" "nrows img = s" "ncols img = s" and s: "0 < s"
  shows "generate_saliency_map L m img k (s, s) =
     (let gradients = cv_resize L (amap chan_max (amap (map3 abs) g)) (s, s);
          msk = circular_mask (nrows gradients) (ncols gradients);
          masked = apply_mask gradients msk
      in bind (normalize_brain (buf masked) msk) (\<lambda>normalized.
           Inr (tabulate s s (\<lambda>y x. map3 (np_uint8 L)
             (zip3 (\<lambda>h p. real (unat h) * 0.7 + (p * 255) * 0.3)
               (px (cv_resize_rgb L (amap bgr2rgb (amap (colormap_jet L)
                      (amap (\<lambda>v. np_uint8 L (255 * v))
                         (cv_GaussianBlur L
                            (apply_threshold L (masked\<lparr>buf := normalized\<rparr>) msk)
                            (11, 11) 0)))) (s, s)) y x)
               (px img y x))))))"
proof -
  have be: "bind (broadcast2 (zip3 (\<lambda>h p. real (unat h) * 0.7 + p * 0.3))
                 (cv_resize_rgb L h (s, s)) (amap (map3 (\<lambda>v. v * 255)) img))
              (\<lambda>superimposed_img. Inr (amap (map3 (np_uint8 L)) superimposed_img)) =
         Inr (tabulate s s (\<lambda>y x. map3 (np_uint8 L)
                (zip3 (\<lambda>h p. real (unat h) * 0.7 + (p * 255) * 0.3)
                   (px (cv_resize_rgb L h (s, s)) y x) (px img y x))))" for h
    by (rule blend_eq [OF contract_resize(4,5) [OF c s s] img])
  show ?thesis
    unfolding generate_saliency_map_def gr bind_Inr Let_def be ..
qed


lemma shape_contract_simple: "shape_contract simple_lib"
  by (simp add: shape_contract_def simple_lib_def nearest_resize_def wf_array_def)


text \<open>
  Claim C3.  For a library that meets the shape contract, a gradient that was computed, and
  a well-formed square image of the requested size, \<open>generate_saliency_map\<close> returns an
  overlay with as many rows and columns as the input image: \<open>img_size\<close> by \<open>img_size\<close>.
\<close>

theorem overlay_same_dimensions:
  assumes "shape_contract L" and "class_gradient m img k = Inr g"
    and "wf_array img" "nrows img = s" "ncols img = s" and "0 < s"
  shows "\<exists>out. generate_saliency_map L m img k (s, s) = Inr out \<and>
           nrows out = s \<and> ncols out = s \<and> nrows out = nrows img \<and> ncols out = ncols img \<and>
           wf_array out"
proof -
  let ?G = "cv_resize L (amap chan_max (amap (map3 abs) g)) (s, s)"
  let ?msk = "circular_mask (nrows ?G) (ncols ?G)"
  let ?M = "apply_mask ?G ?msk"
  have G: "nrows ?G = s" "ncols ?G = s" "wf_array ?G"
    using contract_resize [OF assms(1) assms(6) assms(6)] by simp_all
  have M: "nrows ?M = s" "ncols ?M = s" "wf_array ?M"
    using G by (simp_all add: apply_mask_def wf_array_def length_circular_mask)
  have mm: "?msk = circular_mask (nrows ?M) (ncols ?M)" using G M by simp
  obtain b where b: "normalize_brain (buf ?M) ?msk = Inr b"
    using normalize_returns_square [OF M(3)] M(1,2) assms(6) mm by auto
  have "\<exists>f. generate_saliency_map L m img k (s, s) = Inr (tabulate s s f)"
    unfolding saliency_unfold [OF assms] Let_def b bind_Inr by blast
  then obtain f where "generate_saliency_map L m img k (s, s) = Inr (tabulate s s f)" ..
  then show ?thesis
    using assms(4,5) by (simp add: tabulate_def wf_array_def)
qed

theorem overlay_same_dimensions_witness:
  "(let m = \<lparr>predict = (\<lambda>img. Inr [1/10, 7/10, 3/20, 1/20]),
            class_gradient = (\<lambda>img k. Inr img)\<rparr>;
        img = \<lparr>nrows = 3, ncols = 3, buf = replicate 9 (1/2, 1/4, 1)\<rparr>
    in shape_contract simple_lib \<and> class_gradient m img 0 = Inr img \<and> wf_array img \<and>
       nrows img = 3 \<and> ncols img = 3 \<and> (0::nat) < 3 \<and>
       (\<exists>out. generate_saliency_map simple_lib m img 0 (3, 3) = Inr out \<and>
           nrows out = 3 \<and> ncols out = 3))"
proof -
  let ?m = "\<lparr>predict = (\<lambda>img. Inr [1/10, 7/10, 3/20, 1/20]),
            class_gradient = (\<lambda>img k. Inr img)\<rparr> :: model"
  let ?img = "\<lparr>nrows = 3, ncols = 3, buf = replicate 9 (1/2, 1/4, 1)\<rparr> :: real pixel ndarray"
  have g: "class_gradient ?m ?img 0 = Inr ?img" by simp
  have wf: "wf_array ?img" by (simp add: wf_array_def)
  have r: "nrows ?img = 3" and c: "ncols ?img = 3" by simp_all
  have s: "(0::nat) < 3" by simp
  from overlay_same_dimensions [OF shape_contract_simple g wf r c s]
  have "\<exists>out. generate_saliency_map simple_lib ?m ?img 0 (3, 3) = Inr out \<and>
           nrows out = 3 \<and> ncols out = 3" by blast
  with shape_contract_simple g wf r c s show ?thesis
    unfolding Let_def by (intro conjI)
qed





end
